theory Spec2Isabelle
  imports Complex_Main "HOL-Library.Word" "HOL-Library.Log_Nat"
begin

unbundle bit_operations_syntax

section \<open>Python values used by SolarTracer\<close>

text \<open>
  The exceptions that can reach the client code of \<^verbatim>\<open>SolarTracer.py\<close>.
  \<^verbatim>\<open>IOError\<close> is what minimalmodbus raises for every transport failure (its
  communication exceptions derive from it); \<^verbatim>\<open>ValueError\<close> is what it raises for
  an argument outside its range, before anything is sent; \<^verbatim>\<open>OtherException\<close> stands
  for any other exception that is an \<^verbatim>\<open>Exception\<close> but not an \<^verbatim>\<open>IOError\<close>.
\<close>

datatype exn = IOError | IndexError | OverflowError | ValueError | OtherException

text \<open>
  Python list indexing \<^verbatim>\<open>xs[i]\<close> with an integer index: a negative index counts
  from the end, and an index outside the list raises \<^verbatim>\<open>IndexError\<close>.
\<close>

definition py_index :: "'a list \<Rightarrow> int \<Rightarrow> exn + 'a" where
  "py_index xs i =
     (if 0 \<le> i \<and> i < int (length xs) then Inr (xs ! nat i)
      else if i < 0 \<and> - int (length xs) \<le> i then Inr (xs ! nat (i + int (length xs)))
      else Inl IndexError)"

text \<open>Python's \<^verbatim>\<open>bool(n)\<close> of an integer.\<close>

definition py_bool :: "int \<Rightarrow> bool" where
  "py_bool n = (n \<noteq> 0)"

section \<open>Status bitfield decoders\<close>

text \<open>
  \<^verbatim>\<open>decodeBatteryStatus\<close> (register 0x3200). The dictionary literal is evaluated in
  source order, so the voltage-status lookup is the first thing that can raise.
\<close>

record battery_status =
  voltage_status :: string
  temperature_status :: string
  internal_resistance_abnormal :: bool
  wrong_voltage_identification :: bool

definition BATTERY_VOLTAGE_TABLE :: "string list" where
  "BATTERY_VOLTAGE_TABLE =
     [''Normal'', ''Overvolt'', ''Under Volt'', ''Low Volt Disconnect'', ''Fault'']"

definition BATTERY_TEMPERATURE_TABLE :: "string list" where
  "BATTERY_TEMPERATURE_TABLE = [''Normal'', ''Over Temp'', ''Low Temp'']"

definition decodeBatteryStatus :: "int \<Rightarrow> exn + battery_status" where
  "decodeBatteryStatus status_value =
     (case py_index BATTERY_VOLTAGE_TABLE (status_value AND 0x0F) of
        Inl e \<Rightarrow> Inl e
      | Inr vs \<Rightarrow>
         (case py_index BATTERY_TEMPERATURE_TABLE
                 ((drop_bit 4 status_value AND 0x0F) mod 3) of
            Inl e \<Rightarrow> Inl e
          | Inr ts \<Rightarrow>
              Inr \<lparr> voltage_status = vs,
                    temperature_status = ts,
                    internal_resistance_abnormal = py_bool (status_value AND 0x0100),
                    wrong_voltage_identification = py_bool (status_value AND 0x8000) \<rparr>))"

text \<open>\<^verbatim>\<open>decodeChargingStatus\<close> (register 0x3201), fields in source order.\<close>

record charging_status_rec =
  input_voltage_status :: string
  charging_mosfet_short :: bool
  charging_anti_reverse_short :: bool
  anti_reverse_short :: bool
  input_over_current :: bool
  load_over_current :: bool
  load_short :: bool
  load_mosfet_short :: bool
  pv_input_short :: bool
  charging_status :: string
  fault :: bool
  running :: bool

definition INPUT_VOLTAGE_TABLE :: "string list" where
  "INPUT_VOLTAGE_TABLE =
     [''Normal'', ''No power'', ''Higher volt input'', ''Input volt error'']"

definition CHARGING_TABLE :: "string list" where
  "CHARGING_TABLE = [''No charging'', ''Float'', ''Boost'', ''Equalization'']"

definition decodeChargingStatus :: "int \<Rightarrow> exn + charging_status_rec" where
  "decodeChargingStatus status_value =
     (case py_index INPUT_VOLTAGE_TABLE (drop_bit 14 status_value AND 0x03) of
        Inl e \<Rightarrow> Inl e
      | Inr ivs \<Rightarrow>
         (case py_index CHARGING_TABLE (drop_bit 2 status_value AND 0x03) of
            Inl e \<Rightarrow> Inl e
          | Inr cs \<Rightarrow>
              Inr \<lparr> input_voltage_status = ivs,
                    charging_mosfet_short = py_bool (status_value AND 0x2000),
                    charging_anti_reverse_short = py_bool (status_value AND 0x1000),
                    anti_reverse_short = py_bool (status_value AND 0x0800),
                    input_over_current = py_bool (status_value AND 0x0400),
                    load_over_current = py_bool (status_value AND 0x0200),
                    load_short = py_bool (status_value AND 0x0100),
                    load_mosfet_short = py_bool (status_value AND 0x0080),
                    pv_input_short = py_bool (status_value AND 0x0010),
                    charging_status = cs,
                    fault = py_bool (status_value AND 0x0002),
                    running = py_bool (status_value AND 0x0001) \<rparr>))"

section \<open>Python floats\<close>

text \<open>
  A Python float is an IEEE-754 binary64 number. A finite double is represented by the
  real number it denotes, and every arithmetic operation rounds its exact result to the
  nearest double, ties to the even significand.

  \<^verbatim>\<open>floor_log2 q\<close> is the binary exponent of a positive \<open>q\<close>: the integer \<open>e\<close> with
  \<open>2\<^sup>e \<le> q < 2\<^sup>e\<^sup>+\<^sup>1\<close>. The significand has 53 bits, so the spacing of the doubles
  around \<open>q\<close> is \<open>2\<^sup>e\<^sup>-\<^sup>5\<^sup>2\<close>, and never below the subnormal spacing \<open>2\<^sup>-\<^sup>1\<^sup>0\<^sup>7\<^sup>4\<close>.
\<close>

definition round_half_even :: "real \<Rightarrow> int" where
  "round_half_even x =
     (let f = \<lfloor>x\<rfloor>; d = x - of_int f
      in if d < 1 / 2 then f
         else if 1 / 2 < d then f + 1
         else if even f then f else f + 1)"

definition floor_log2 :: "real \<Rightarrow> int" where
  "floor_log2 q = (if 1 \<le> q then bitlen \<lfloor>q\<rfloor> - 1 else - bitlen (\<lceil>1 / q\<rceil> - 1))"

definition ulp :: "real \<Rightarrow> real" where
  "ulp q = 2 powi (max (floor_log2 \<bar>q\<bar> - 52) (- 1074))"

definition round_double :: "real \<Rightarrow> real" where
  "round_double q = (if q = 0 then 0 else of_int (round_half_even (q / ulp q)) * ulp q)"

text \<open>A rounded result of magnitude \<open>2\<^sup>1\<^sup>0\<^sup>2\<^sup>4\<close> or more is outside the finite doubles.\<close>

definition out_of_range :: "real \<Rightarrow> bool" where
  "out_of_range r = (2 ^ 1024 \<le> \<bar>r\<bar>)"

text \<open>
  The implicit conversion of an \<^verbatim>\<open>int\<close> operand in mixed arithmetic: correctly
  rounded, and \<^verbatim>\<open>OverflowError\<close> when the integer is too large for a float.
\<close>

definition int_to_float :: "int \<Rightarrow> exn + real" where
  "int_to_float n =
     (let r = round_double (of_int n)
      in if out_of_range r then Inl OverflowError else Inr r)"

text \<open>
  \<^verbatim>\<open>n / 100.0\<close> with an \<^verbatim>\<open>int\<close> \<open>n\<close>: the integer is converted, then one float
  division. The quotient of a finite double by 100 is never out of range.
\<close>

definition div_100 :: "int \<Rightarrow> exn + real" where
  "div_100 n =
     (case int_to_float n of
        Inl e \<Rightarrow> Inl e
      | Inr x \<Rightarrow> Inr (round_double (x / 100)))"




text \<open>A float literal of the source denotes the double nearest to its decimal value.\<close>

definition float_literal :: "real \<Rightarrow> real" where
  "float_literal q = round_double q"

section \<open>32-bit composition\<close>

definition combine32BitValue :: "int \<Rightarrow> int \<Rightarrow> exn + real" where
  "combine32BitValue low_reg high_reg = div_100 (high_reg * 65536 + low_reg)"

section \<open>The instrument\<close>

text \<open>
  The serial link and the device behind it are outside the program. A request is one
  call of a minimalmodbus method; the instrument answers a request as a function of the
  requests made before it, so the same call may succeed once and fail later. An answer
  is an exception or the payload; registers are raw 16-bit words.
\<close>

datatype request =
    ReadRegister nat nat nat
  | ReadRegisters nat nat nat
  | WriteBit nat bool
  | WriteRegisters nat "int list"

record instrument =
  read_register :: "request list \<Rightarrow> nat \<Rightarrow> nat \<Rightarrow> nat \<Rightarrow> exn + 16 word"
  read_registers :: "request list \<Rightarrow> nat \<Rightarrow> nat \<Rightarrow> nat \<Rightarrow> exn + 16 word list"
  write_bit :: "request list \<Rightarrow> nat \<Rightarrow> bool \<Rightarrow> exn option"
  write_registers :: "request list \<Rightarrow> nat \<Rightarrow> int list \<Rightarrow> exn option"

text \<open>
  Modelled from the spec: the scaling inside minimalmodbus' \<^verbatim>\<open>read_register\<close>, an
  external library that is not part of the sources. The register is read unsigned and
  the value returned is the raw word divided by ten to the number of decimals.
\<close>

definition scaled_register :: "16 word \<Rightarrow> nat \<Rightarrow> real" where
  "scaled_register w decimals = round_double (of_int (uint w) / 10 ^ decimals)"

text \<open>
  Modelled from the spec: the call \<^verbatim>\<open>instrument.read_register(register, decimals,
  function_code)\<close> of the same library. It accepts at most 10 decimals and raises
  \<^verbatim>\<open>ValueError\<close> for more, before anything is sent; otherwise the instrument answers
  with an exception or with the raw word, which is scaled.
\<close>

definition read_register_scaled ::
  "instrument \<Rightarrow> request list \<Rightarrow> nat \<Rightarrow> nat \<Rightarrow> nat \<Rightarrow> exn + real" where
  "read_register_scaled instr reqs register decimals function_code =
     (if 10 < decimals then Inl ValueError
      else case read_register instr reqs register decimals function_code of
             Inl e \<Rightarrow> Inl e
           | Inr w \<Rightarrow> Inr (scaled_register w decimals))"

section \<open>Register and coil primitives\<close>

text \<open>
  Every operation takes the instrument and the requests made so far, and returns its
  result with the extended request history. \<^verbatim>\<open>Inl\<close> is an exception that leaves
  the method.
\<close>

definition readReg ::
  "instrument \<Rightarrow> request list \<Rightarrow> nat \<Rightarrow> nat \<Rightarrow> nat \<Rightarrow> (exn + real) \<times> request list" where
  "readReg instr reqs register decimals function_code =
     (case read_register_scaled instr reqs register decimals function_code of
        Inr v \<Rightarrow> Inr v
      | Inl IOError \<Rightarrow> Inr (- 1)
      | Inl e \<Rightarrow> Inl e,
      reqs @ [ReadRegister register decimals function_code])"

definition writeCoil ::
  "instrument \<Rightarrow> request list \<Rightarrow> nat \<Rightarrow> bool \<Rightarrow> (exn + bool) \<times> request list" where
  "writeCoil instr reqs address v =
     (case write_bit instr reqs address v of
        None \<Rightarrow> Inr True
      | Some IOError \<Rightarrow> Inr False
      | Some e \<Rightarrow> Inl e,
      reqs @ [WriteBit address v])"

section \<open>Snapshot assemblers\<close>

text \<open>
  A dictionary literal evaluates its values in source order; the first value that raises
  ends the evaluation with that exception.
\<close>

fun dict_literal :: "(string \<times> (exn + real)) list \<Rightarrow> exn + (string \<times> real) list" where
  "dict_literal [] = Inr []"
| "dict_literal ((k, Inl e) # rest) = Inl e"
| "dict_literal ((k, Inr v) # rest) =
     (case dict_literal rest of
        Inl e \<Rightarrow> Inl e
      | Inr d \<Rightarrow> Inr ((k, v) # d))"

text \<open>\<^verbatim>\<open>regs[i] / 100.0\<close> and \<^verbatim>\<open>self.combine32BitValue(regs[i], regs[j])\<close>.\<close>

definition centi :: "int list \<Rightarrow> int \<Rightarrow> exn + real" where
  "centi regs i = (case py_index regs i of Inl e \<Rightarrow> Inl e | Inr r \<Rightarrow> div_100 r)"

definition pair32 :: "int list \<Rightarrow> int \<Rightarrow> int \<Rightarrow> exn + real" where
  "pair32 regs i j =
     (case py_index regs i of
        Inl e \<Rightarrow> Inl e
      | Inr lo \<Rightarrow>
          (case py_index regs j of
             Inl e \<Rightarrow> Inl e
           | Inr hi \<Rightarrow> combine32BitValue lo hi))"

text \<open>
  The three snapshot reads. Both handlers (\<^verbatim>\<open>except IOError\<close> and
  \<^verbatim>\<open>except Exception\<close>) return \<^verbatim>\<open>None\<close>, so every exception of the block read and
  of the decoding gives \<^verbatim>\<open>None\<close>.
\<close>

definition snapshot ::
  "exn + 16 word list \<Rightarrow> (int list \<Rightarrow> (string \<times> (exn + real)) list) \<Rightarrow>
   (string \<times> real) list option" where
  "snapshot answer decode =
     (case answer of
        Inl e \<Rightarrow> None
      | Inr ws \<Rightarrow>
          (case dict_literal (decode (map uint ws)) of
             Inl e \<Rightarrow> None
           | Inr d \<Rightarrow> Some d))"

definition rated_fields :: "int list \<Rightarrow> (string \<times> (exn + real)) list" where
  "rated_fields regs =
     [(''pv_rated_voltage'', centi regs 0),
      (''pv_rated_current'', centi regs 1),
      (''pv_rated_power'', pair32 regs 2 3),
      (''battery_rated_voltage'', centi regs 4)]"

definition readRatedData ::
  "instrument \<Rightarrow> request list \<Rightarrow> (string \<times> real) list option \<times> request list" where
  "readRatedData instr reqs =
     (snapshot (read_registers instr reqs 0x3000 5 4) rated_fields,
      reqs @ [ReadRegisters 0x3000 5 4])"

definition current_fields :: "int list \<Rightarrow> (string \<times> (exn + real)) list" where
  "current_fields regs =
     [(''PVvolt'', centi regs 0),
      (''PVamps'', centi regs 1),
      (''PVwatt'', pair32 regs 2 3),
      (''BAvolt'', centi regs 4),
      (''BAamps'', centi regs 5),
      (''BAwatt'', pair32 regs 6 7),
      (''DCvolt'', centi regs 12),
      (''DCamps'', centi regs 13),
      (''DCwatt'', pair32 regs 14 15),
      (''BAtemp'', centi regs 16),
      (''CTtemp'', centi regs 17),
      (''power_components_temp'', centi regs 18),
      (''BAperc'', centi regs 19)]"

definition readCurrent ::
  "instrument \<Rightarrow> request list \<Rightarrow> (string \<times> real) list option \<times> request list" where
  "readCurrent instr reqs =
     (snapshot (read_registers instr reqs 0x3100 20 4) current_fields,
      reqs @ [ReadRegisters 0x3100 20 4])"

definition stats_fields :: "int list \<Rightarrow> (string \<times> (exn + real)) list" where
  "stats_fields regs =
     [(''max_pv_voltage_today'', centi regs 0),
      (''min_pv_voltage_today'', centi regs 1),
      (''max_battery_voltage_today'', centi regs 2),
      (''min_battery_voltage_today'', centi regs 3),
      (''consumed_energy_today'', pair32 regs 4 5),
      (''consumed_energy_month'', pair32 regs 6 7),
      (''consumed_energy_year'', pair32 regs 8 9),
      (''total_consumed_energy'', pair32 regs 10 11),
      (''generated_energy_today'', pair32 regs 12 13),
      (''generated_energy_month'', pair32 regs 14 15),
      (''generated_energy_year'', pair32 regs 16 17),
      (''total_generated_energy'', pair32 regs 18 19)]"

definition readStats ::
  "instrument \<Rightarrow> request list \<Rightarrow> (string \<times> real) list option \<times> request list" where
  "readStats instr reqs =
     (snapshot (read_registers instr reqs 0x3300 20 4) stats_fields,
      reqs @ [ReadRegisters 0x3300 20 4])"

text \<open>
  The two banks the device does not offer: no request is made, and the result is the
  empty dictionary.
\<close>

definition readAllSettings ::
  "instrument \<Rightarrow> request list \<Rightarrow> (string \<times> real) list option \<times> request list" where
  "readAllSettings instr reqs = (Some [], reqs)"

definition readSystemStatus ::
  "instrument \<Rightarrow> request list \<Rightarrow> (string \<times> real) list option \<times> request list" where
  "readSystemStatus instr reqs = (Some [], reqs)"

section \<open>Writers\<close>







text \<open>\<^verbatim>\<open>success &= self.writeCoil(...)\<close>, three times; \<^verbatim>\<open>&\<close> on booleans is conjunction.\<close>

definition setLoadControl ::
  "instrument \<Rightarrow> request list \<Rightarrow> bool \<Rightarrow> bool \<Rightarrow> bool \<Rightarrow> (exn + bool) \<times> request list" where
  "setLoadControl instr reqs manual_on test_mode force_on =
     (let success = True in
      case writeCoil instr reqs 0x0002 manual_on of
        (Inl e, reqs1) \<Rightarrow> (Inl e, reqs1)
      | (Inr w1, reqs1) \<Rightarrow>
          (let success = (success \<and> w1) in
           case writeCoil instr reqs1 0x0005 test_mode of
             (Inl e, reqs2) \<Rightarrow> (Inl e, reqs2)
           | (Inr w2, reqs2) \<Rightarrow>
               (let success = (success \<and> w2) in
                case writeCoil instr reqs2 0x0006 force_on of
                  (Inl e, reqs3) \<Rightarrow> (Inl e, reqs3)
                | (Inr w3, reqs3) \<Rightarrow> (Inr (success \<and> w3), reqs3))))"

section \<open>Instruments used in examples\<close>

definition dead_instrument :: instrument where
  "dead_instrument =
     \<lparr> read_register = (\<lambda>reqs a d f. Inl IOError),
       read_registers = (\<lambda>reqs a n f. Inl IOError),
       write_bit = (\<lambda>reqs a v. Some IOError),
       write_registers = (\<lambda>reqs a vs. Some IOError) \<rparr>"

definition flaky_instrument :: instrument where
  "flaky_instrument =
     \<lparr> read_register = (\<lambda>reqs a d f. Inr 2500),
       read_registers = (\<lambda>reqs a n f. Inr (replicate n 1234)),
       write_bit = (\<lambda>reqs a v. if a = 0x0005 then Some IOError else None),
       write_registers = (\<lambda>reqs a vs. None) \<rparr>"

section \<open>Reading kinds\<close>

text \<open>
  The field names of the three reading kinds, in the order of the dictionary literals of
  \<^verbatim>\<open>readRatedData\<close>, \<^verbatim>\<open>readCurrent\<close> and \<^verbatim>\<open>readStats\<close>. A result has the keys
  of a kind when it is a dictionary with exactly these keys.
\<close>

definition RATED_KEYS :: "string list" where
  "RATED_KEYS =
     [''pv_rated_voltage'', ''pv_rated_current'', ''pv_rated_power'',
      ''battery_rated_voltage'']"

definition CURRENT_KEYS :: "string list" where
  "CURRENT_KEYS =
     [''PVvolt'', ''PVamps'', ''PVwatt'', ''BAvolt'', ''BAamps'', ''BAwatt'',
      ''DCvolt'', ''DCamps'', ''DCwatt'', ''BAtemp'', ''CTtemp'',
      ''power_components_temp'', ''BAperc'']"

definition STATS_KEYS :: "string list" where
  "STATS_KEYS =
     [''max_pv_voltage_today'', ''min_pv_voltage_today'', ''max_battery_voltage_today'',
      ''min_battery_voltage_today'', ''consumed_energy_today'', ''consumed_energy_month'',
      ''consumed_energy_year'', ''total_consumed_energy'', ''generated_energy_today'',
      ''generated_energy_month'', ''generated_energy_year'', ''total_generated_energy'']"

definition has_keys :: "string list \<Rightarrow> (string \<times> real) list option \<Rightarrow> bool" where
  "has_keys keys r = (case r of None \<Rightarrow> False | Some d \<Rightarrow> map fst d = keys)"

section \<open>Facts about masked indices\<close>

lemma mask_tests_bit:
  fixes w :: int
  shows "(w AND 2 ^ n \<noteq> 0) = bit w n"
  by (simp add: bit_iff_and_push_bit_not_eq_0)

lemma single_bit_masks:
  fixes w :: int
  shows "(w AND 0x2000 \<noteq> 0) = bit w 13" and "(w AND 0x1000 \<noteq> 0) = bit w 12"
    and "(w AND 0x0800 \<noteq> 0) = bit w 11" and "(w AND 0x0400 \<noteq> 0) = bit w 10"
    and "(w AND 0x0200 \<noteq> 0) = bit w 9" and "(w AND 0x0100 \<noteq> 0) = bit w 8"
    and "(w AND 0x0080 \<noteq> 0) = bit w 7" and "(w AND 0x0010 \<noteq> 0) = bit w 4"
    and "(w AND 0x0002 \<noteq> 0) = bit w 1" and "(w AND 0x0001 \<noteq> 0) = bit w 0"
    and "(w AND 0x8000 \<noteq> 0) = bit w 15"
  using mask_tests_bit [of w 13] mask_tests_bit [of w 12] mask_tests_bit [of w 11]
    mask_tests_bit [of w 10] mask_tests_bit [of w 9] mask_tests_bit [of w 8]
    mask_tests_bit [of w 7] mask_tests_bit [of w 4] mask_tests_bit [of w 1]
    mask_tests_bit [of w 0] mask_tests_bit [of w 15]
  by simp_all

lemma py_index_in_range:
  assumes "0 \<le> i" and "i < int (length xs)"
  shows "py_index xs i = Inr (xs ! nat i)"
  using assms by (simp add: py_index_def)

lemma py_index_beyond:
  assumes "int (length xs) \<le> i"
  shows "py_index xs i = Inl IndexError"
  using assms by (simp add: py_index_def)

lemma decodeBatteryStatus_cases:
  "decodeBatteryStatus w =
     (if w AND 0x0F < 5 then
        Inr \<lparr> voltage_status = BATTERY_VOLTAGE_TABLE ! nat (w AND 0x0F),
              temperature_status =
                BATTERY_TEMPERATURE_TABLE ! nat ((drop_bit 4 w AND 0x0F) mod 3),
              internal_resistance_abnormal = (w AND 0x0100 \<noteq> 0),
              wrong_voltage_identification = (w AND 0x8000 \<noteq> 0) \<rparr>
      else Inl IndexError)"
proof -
  have v: "0 \<le> w AND 0x0F"
    by simp
  have t: "0 \<le> (drop_bit 4 w AND 0x0F) mod 3" "(drop_bit 4 w AND 0x0F) mod 3 < 3"
    by simp_all
  have it: "py_index BATTERY_TEMPERATURE_TABLE ((drop_bit 4 w AND 0x0F) mod 3)
              = Inr (BATTERY_TEMPERATURE_TABLE ! nat ((drop_bit 4 w AND 0x0F) mod 3))"
    using t by (intro py_index_in_range) (simp_all add: BATTERY_TEMPERATURE_TABLE_def)
  show ?thesis
  proof (cases "w AND 0x0F < 5")
    case True
    then have "py_index BATTERY_VOLTAGE_TABLE (w AND 0x0F)
                 = Inr (BATTERY_VOLTAGE_TABLE ! nat (w AND 0x0F))"
      using v by (intro py_index_in_range) (simp_all add: BATTERY_VOLTAGE_TABLE_def)
    with True it show ?thesis
      by (simp add: decodeBatteryStatus_def py_bool_def)
  next
    case False
    then have "py_index BATTERY_VOLTAGE_TABLE (w AND 0x0F) = Inl IndexError"
      by (intro py_index_beyond) (simp add: BATTERY_VOLTAGE_TABLE_def)
    with False show ?thesis
      by (simp add: decodeBatteryStatus_def)
  qed
qed

section \<open>Charging-status decoder\<close>

text \<open>
  Claim C3. For every status word \<open>w\<close> the charging-status decoder returns a record
  (no table lookup fails) in which the input-voltage status is the entry of the
  four-entry table at \<open>(w >> 14) & 0x03\<close>, the charging status is the entry of its
  four-entry table at \<open>(w >> 2) & 0x03\<close>, and each flag tells whether its single-bit
  mask is set in \<open>w\<close>, that is whether bit 13, 12, 11, 10, 9, 8, 7, 4, 1 or 0 of \<open>w\<close> is
  set. For the word 0x0001 only \<open>running\<close> is set, and both statuses
  are the first entries of their tables.
\<close>

theorem decodeChargingStatus_layout:
  "decodeChargingStatus w =
     Inr \<lparr> input_voltage_status = INPUT_VOLTAGE_TABLE ! nat (drop_bit 14 w AND 0x03),
           charging_mosfet_short = (w AND 0x2000 \<noteq> 0),
           charging_anti_reverse_short = (w AND 0x1000 \<noteq> 0),
           anti_reverse_short = (w AND 0x0800 \<noteq> 0),
           input_over_current = (w AND 0x0400 \<noteq> 0),
           load_over_current = (w AND 0x0200 \<noteq> 0),
           load_short = (w AND 0x0100 \<noteq> 0),
           load_mosfet_short = (w AND 0x0080 \<noteq> 0),
           pv_input_short = (w AND 0x0010 \<noteq> 0),
           charging_status = CHARGING_TABLE ! nat (drop_bit 2 w AND 0x03),
           fault = (w AND 0x0002 \<noteq> 0),
           running = (w AND 0x0001 \<noteq> 0) \<rparr>
   \<and> nat (drop_bit 14 w AND 0x03) < length INPUT_VOLTAGE_TABLE
   \<and> nat (drop_bit 2 w AND 0x03) < length CHARGING_TABLE
   \<and> INPUT_VOLTAGE_TABLE = [''Normal'', ''No power'', ''Higher volt input'', ''Input volt error'']
   \<and> CHARGING_TABLE = [''No charging'', ''Float'', ''Boost'', ''Equalization'']
   \<and> (w AND 0x2000 \<noteq> 0) = bit w 13 \<and> (w AND 0x1000 \<noteq> 0) = bit w 12
   \<and> (w AND 0x0800 \<noteq> 0) = bit w 11 \<and> (w AND 0x0400 \<noteq> 0) = bit w 10
   \<and> (w AND 0x0200 \<noteq> 0) = bit w 9 \<and> (w AND 0x0100 \<noteq> 0) = bit w 8
   \<and> (w AND 0x0080 \<noteq> 0) = bit w 7 \<and> (w AND 0x0010 \<noteq> 0) = bit w 4
   \<and> (w AND 0x0002 \<noteq> 0) = bit w 1 \<and> (w AND 0x0001 \<noteq> 0) = bit w 0
   \<and> decodeChargingStatus 0x0001 =
     Inr \<lparr> input_voltage_status = ''Normal'',
           charging_mosfet_short = False,
           charging_anti_reverse_short = False,
           anti_reverse_short = False,
           input_over_current = False,
           load_over_current = False,
           load_short = False,
           load_mosfet_short = False,
           pv_input_short = False,
           charging_status = ''No charging'',
           fault = False,
           running = True \<rparr>"
proof -
  have a: "0 \<le> drop_bit 14 w AND 3" "drop_bit 14 w AND 3 \<le> 3"
    by (simp_all add: AND_upper2)
  have b: "0 \<le> drop_bit 2 w AND 3" "drop_bit 2 w AND 3 \<le> 3"
    by (simp_all add: AND_upper2)
  have ia: "py_index INPUT_VOLTAGE_TABLE (drop_bit 14 w AND 3)
              = Inr (INPUT_VOLTAGE_TABLE ! nat (drop_bit 14 w AND 3))"
    using a by (intro py_index_in_range) (simp_all add: INPUT_VOLTAGE_TABLE_def)
  have ib: "py_index CHARGING_TABLE (drop_bit 2 w AND 3)
              = Inr (CHARGING_TABLE ! nat (drop_bit 2 w AND 3))"
    using b by (intro py_index_in_range) (simp_all add: CHARGING_TABLE_def)
  have gen: "decodeChargingStatus w =
     Inr \<lparr> input_voltage_status = INPUT_VOLTAGE_TABLE ! nat (drop_bit 14 w AND 0x03),
           charging_mosfet_short = (w AND 0x2000 \<noteq> 0),
           charging_anti_reverse_short = (w AND 0x1000 \<noteq> 0),
           anti_reverse_short = (w AND 0x0800 \<noteq> 0),
           input_over_current = (w AND 0x0400 \<noteq> 0),
           load_over_current = (w AND 0x0200 \<noteq> 0),
           load_short = (w AND 0x0100 \<noteq> 0),
           load_mosfet_short = (w AND 0x0080 \<noteq> 0),
           pv_input_short = (w AND 0x0010 \<noteq> 0),
           charging_status = CHARGING_TABLE ! nat (drop_bit 2 w AND 0x03),
           fault = (w AND 0x0002 \<noteq> 0),
           running = (w AND 0x0001 \<noteq> 0) \<rparr>"
    by (simp add: decodeChargingStatus_def ia ib py_bool_def)
  have "nat (drop_bit 14 w AND 0x03) < 4"
    using a by linarith
  then have la: "nat (drop_bit 14 w AND 0x03) < length INPUT_VOLTAGE_TABLE"
    by (simp add: INPUT_VOLTAGE_TABLE_def)
  have "nat (drop_bit 2 w AND 0x03) < 4"
    using b by linarith
  then have lb: "nat (drop_bit 2 w AND 0x03) < length CHARGING_TABLE"
    by (simp add: CHARGING_TABLE_def)
  have ex: "decodeChargingStatus 0x0001 =
     Inr \<lparr> input_voltage_status = ''Normal'',
           charging_mosfet_short = False,
           charging_anti_reverse_short = False,
           anti_reverse_short = False,
           input_over_current = False,
           load_over_current = False,
           load_short = False,
           load_mosfet_short = False,
           pv_input_short = False,
           charging_status = ''No charging'',
           fault = False,
           running = True \<rparr>"
    by (simp add: decodeChargingStatus_def py_index_def py_bool_def
        INPUT_VOLTAGE_TABLE_def CHARGING_TABLE_def)
  have tables:
    "INPUT_VOLTAGE_TABLE = [''Normal'', ''No power'', ''Higher volt input'', ''Input volt error'']"
    "CHARGING_TABLE = [''No charging'', ''Float'', ''Boost'', ''Equalization'']"
    by (simp_all add: INPUT_VOLTAGE_TABLE_def CHARGING_TABLE_def)
  show ?thesis
    by (intro conjI gen la lb ex tables single_bit_masks)
qed

text \<open>
  Claim C4, as amended. Bits 2 and 3 of the word 0x200C are both set, so the decoder
  gives the charging status at index 3, Equalization; the charging MOSFET short flag is
  set, and fault and running are not.
\<close>

theorem decodeChargingStatus_200C:
  "decodeChargingStatus 0x200C =
     Inr \<lparr> input_voltage_status = ''Normal'',
           charging_mosfet_short = True,
           charging_anti_reverse_short = False,
           anti_reverse_short = False,
           input_over_current = False,
           load_over_current = False,
           load_short = False,
           load_mosfet_short = False,
           pv_input_short = False,
           charging_status = ''Equalization'',
           fault = False,
           running = False \<rparr>"
  by (simp add: decodeChargingStatus_def py_index_def py_bool_def
        INPUT_VOLTAGE_TABLE_def CHARGING_TABLE_def)

text \<open>
  The charging status decoded from 0x200C is Equalization and therefore not Boost.
\<close>

theorem decodeChargingStatus_200C_not_Boost:
  "map_sum id charging_status (decodeChargingStatus 0x200C) = Inr ''Equalization''
   \<and> map_sum id charging_status (decodeChargingStatus 0x200C) \<noteq> Inr ''Boost''"
  by (simp add: decodeChargingStatus_def py_index_def py_bool_def
        INPUT_VOLTAGE_TABLE_def CHARGING_TABLE_def)

section \<open>Battery-status decoder\<close>

text \<open>
  Claim C7. For every status word \<open>w\<close> the battery-status decoder looks the low four
  bits of \<open>w\<close> up in the five-entry voltage table, which gives a record when they are
  below 5 and the lookup's \<^verbatim>\<open>IndexError\<close> otherwise; in the record the temperature
  status is the entry of the three-entry table at \<open>((w >> 4) & 0x0F) % 3\<close>, always
  inside the table, and the two flags tell whether the masks 0x0100 and 0x8000 are set.
  The word 0x0000 decodes to Normal, Normal and two false flags.
\<close>

theorem decodeBatteryStatus_layout:
  "decodeBatteryStatus w =
     (if w AND 0x0F < 5 then
        Inr \<lparr> voltage_status = BATTERY_VOLTAGE_TABLE ! nat (w AND 0x0F),
              temperature_status =
                BATTERY_TEMPERATURE_TABLE ! nat ((drop_bit 4 w AND 0x0F) mod 3),
              internal_resistance_abnormal = (w AND 0x0100 \<noteq> 0),
              wrong_voltage_identification = (w AND 0x8000 \<noteq> 0) \<rparr>
      else Inl IndexError)
   \<and> nat ((drop_bit 4 w AND 0x0F) mod 3) < length BATTERY_TEMPERATURE_TABLE
   \<and> BATTERY_VOLTAGE_TABLE =
       [''Normal'', ''Overvolt'', ''Under Volt'', ''Low Volt Disconnect'', ''Fault'']
   \<and> BATTERY_TEMPERATURE_TABLE = [''Normal'', ''Over Temp'', ''Low Temp'']
   \<and> decodeBatteryStatus 0x0000 =
       Inr \<lparr> voltage_status = ''Normal'',
             temperature_status = ''Normal'',
             internal_resistance_abnormal = False,
             wrong_voltage_identification = False \<rparr>"
proof -
  have "(drop_bit 4 w AND 0x0F) mod 3 < 3"
    by simp
  then have "nat ((drop_bit 4 w AND 0x0F) mod 3) < 3"
    by linarith
  then have l: "nat ((drop_bit 4 w AND 0x0F) mod 3) < length BATTERY_TEMPERATURE_TABLE"
    by (simp add: BATTERY_TEMPERATURE_TABLE_def)
  have z: "decodeBatteryStatus 0x0000 =
       Inr \<lparr> voltage_status = ''Normal'',
             temperature_status = ''Normal'',
             internal_resistance_abnormal = False,
             wrong_voltage_identification = False \<rparr>"
    by (simp add: decodeBatteryStatus_def py_index_def py_bool_def
        BATTERY_VOLTAGE_TABLE_def BATTERY_TEMPERATURE_TABLE_def)
  show ?thesis
    using decodeBatteryStatus_cases [of w] l z
    by (simp add: BATTERY_VOLTAGE_TABLE_def BATTERY_TEMPERATURE_TABLE_def)
qed

theorem decodeBatteryStatus_layout_witness:
  "decodeBatteryStatus 0x8123 =
     Inr \<lparr> voltage_status = ''Low Volt Disconnect'',
           temperature_status = ''Low Temp'',
           internal_resistance_abnormal = True,
           wrong_voltage_identification = True \<rparr>"
  using decodeBatteryStatus_layout [of "0x8123"]
  by (simp add: BATTERY_VOLTAGE_TABLE_def BATTERY_TEMPERATURE_TABLE_def)

text \<open>
  Claim C10. The battery-status decoder returns a record exactly when the low four bits
  of the word are at most 4. When they are between 5 and 15 the voltage-status lookup
  is outside its five-entry table and the decoder raises \<^verbatim>\<open>IndexError\<close>.
\<close>

theorem decodeBatteryStatus_partial:
  "(decodeBatteryStatus w = Inl IndexError) = (5 \<le> w AND 0x0F)
   \<and> (\<exists>r. decodeBatteryStatus w = Inr r) = (w AND 0x0F \<le> 4)
   \<and> 0 \<le> w AND 0x0F \<and> w AND 0x0F \<le> 15"
proof -
  have "w AND 0x0F \<le> 15"
    by (simp add: AND_upper2)
  then show ?thesis
    by (simp add: decodeBatteryStatus_cases [of w])
qed

theorem decodeBatteryStatus_partial_witness:
  "decodeBatteryStatus 0x0005 = Inl IndexError
   \<and> decodeBatteryStatus 0xFFFF = Inl IndexError
   \<and> (\<exists>r. decodeBatteryStatus 0x0004 = Inr r)"
  using decodeBatteryStatus_partial [of "0x0005"] decodeBatteryStatus_partial [of "0xFFFF"]
    decodeBatteryStatus_partial [of "0x0004"]
  by simp

section \<open>Rounding to the nearest double\<close>

lemma two_powi_nonneg:
  assumes "0 \<le> k"
  shows "(2::real) powi k = 2 ^ nat k"
  using assms by (simp add: power_int_def)

lemma two_powi_nonpos:
  assumes "k \<le> 0"
  shows "(2::real) powi k = 1 / 2 ^ nat (- k)"
proof -
  have "(2::real) powi k = 1 / 2 powi (- k)"
    using power_int_minus_divide [of "2::real" "- k"] by simp
  also have "(2::real) powi (- k) = 2 ^ nat (- k)"
    using assms by (intro two_powi_nonneg) simp
  finally show ?thesis .
qed

lemma floor_log2_bounds:
  assumes "0 < q"
  shows "2 powi (floor_log2 q) \<le> q" and "q < 2 powi (floor_log2 q + 1)"
proof -
  have "2 powi (floor_log2 q) \<le> q \<and> q < 2 powi (floor_log2 q + 1)"
  proof (cases "1 \<le> q")
    case True
    define n where "n = \<lfloor>q\<rfloor>"
    have n: "0 < n" "of_int n \<le> q" "q < of_int n + 1"
      using True unfolding n_def by linarith+
    have b: "2 ^ nat (bitlen n - 1) \<le> n" "n < 2 ^ nat (bitlen n)"
      using bitlen_bounds [OF n(1)] by simp_all
    have pos: "1 \<le> bitlen n"
    proof (rule ccontr)
      assume "\<not> 1 \<le> bitlen n"
      then have "nat (bitlen n) = 0" by simp
      with b(2) n(1) show False by simp
    qed
    have e: "floor_log2 q = bitlen n - 1"
      using True by (simp add: floor_log2_def n_def)
    have p1: "(2::real) powi (bitlen n - 1) = 2 ^ nat (bitlen n - 1)"
      using pos by (intro two_powi_nonneg) simp
    have p2: "(2::real) powi (bitlen n - 1 + 1) = 2 ^ nat (bitlen n)"
      using pos two_powi_nonneg [of "bitlen n"] by simp
    have "(2::real) ^ nat (bitlen n - 1) \<le> of_int n"
      using b(1) by (metis of_int_le_iff of_int_numeral of_int_power)
    moreover have "of_int n + 1 \<le> (2::real) ^ nat (bitlen n)"
    proof -
      have "n + 1 \<le> 2 ^ nat (bitlen n)" using b(2) by simp
      then have "of_int (n + 1) \<le> (of_int (2 ^ nat (bitlen n)) :: real)"
        by (simp only: of_int_le_iff)
      then show ?thesis by simp
    qed
    ultimately show ?thesis
      unfolding e p1 p2 using n by linarith
  next
    case False
    define x where "x = 1 / q"
    have x: "1 < x" using assms False by (simp add: x_def)
    define m where "m = \<lceil>x\<rceil> - 1"
    have m: "0 < m" "of_int m < x" "x \<le> of_int m + 1"
      using x unfolding m_def by linarith+
    have b: "2 ^ nat (bitlen m - 1) \<le> m" "m < 2 ^ nat (bitlen m)"
      using bitlen_bounds [OF m(1)] by simp_all
    have pos: "1 \<le> bitlen m"
    proof (rule ccontr)
      assume "\<not> 1 \<le> bitlen m"
      then have "nat (bitlen m) = 0" by simp
      with b(2) m(1) show False by simp
    qed
    have e: "floor_log2 q = - bitlen m"
      using False by (simp add: floor_log2_def m_def x_def)
    have lo: "(2::real) ^ nat (bitlen m - 1) \<le> of_int m"
      using b(1) by (metis of_int_le_iff of_int_numeral of_int_power)
    have hi: "of_int m + 1 \<le> (2::real) ^ nat (bitlen m)"
    proof -
      have "m + 1 \<le> 2 ^ nat (bitlen m)" using b(2) by simp
      then have "of_int (m + 1) \<le> (of_int (2 ^ nat (bitlen m)) :: real)"
        by (simp only: of_int_le_iff)
      then show ?thesis by simp
    qed
    have q: "q = 1 / x" using assms by (simp add: x_def)
    have p1: "(2::real) powi (- bitlen m) = 1 / 2 ^ nat (bitlen m)"
      using pos two_powi_nonpos [of "- bitlen m"] by simp
    have p2: "(2::real) powi (- bitlen m + 1) = 1 / 2 ^ nat (bitlen m - 1)"
      using pos two_powi_nonpos [of "- bitlen m + 1"] by simp
    have x1: "x \<le> 2 ^ nat (bitlen m)"
      using hi m(3) by linarith
    have x2: "2 ^ nat (bitlen m - 1) < x"
      using lo m(2) by linarith
    have "1 / 2 ^ nat (bitlen m) \<le> 1 / x"
      using x1 x by (simp add: field_simps)
    moreover have "1 / x < 1 / 2 ^ nat (bitlen m - 1)"
      using x2 x by (simp add: field_simps)
    ultimately have "1 / 2 ^ nat (bitlen m) \<le> q \<and> q < 1 / 2 ^ nat (bitlen m - 1)"
      using q by simp
    then show ?thesis
      unfolding e p1 p2 .
  qed
  then show "2 powi (floor_log2 q) \<le> q" and "q < 2 powi (floor_log2 q + 1)"
    by simp_all
qed

lemma floor_log2_ge:
  assumes "2 powi k \<le> q"
  shows "k \<le> floor_log2 q"
proof (rule ccontr)
  assume "\<not> k \<le> floor_log2 q"
  then have "floor_log2 q + 1 \<le> k" by simp
  then have "(2::real) powi (floor_log2 q + 1) \<le> 2 powi k"
    by (intro power_int_increasing) simp_all
  moreover have "0 < q"
    using assms zero_less_power_int [of "2::real" k] by linarith
  ultimately show False
    using floor_log2_bounds(2) [of q] assms by linarith
qed

lemma floor_log2_less:
  assumes "0 < q" and "q < 2 powi k"
  shows "floor_log2 q < k"
proof (rule ccontr)
  assume "\<not> floor_log2 q < k"
  then have "(2::real) powi k \<le> 2 powi (floor_log2 q)"
    by (intro power_int_increasing) simp_all
  then show False
    using floor_log2_bounds(1) [OF assms(1)] assms(2) by linarith
qed

lemma round_half_even_error:
  "\<bar>of_int (round_half_even x) - x\<bar> \<le> 1 / 2"
proof -
  have "of_int \<lfloor>x\<rfloor> \<le> x" "x < of_int \<lfloor>x\<rfloor> + 1"
    by linarith+
  then show ?thesis
    by (auto simp add: round_half_even_def Let_def)
qed

lemma round_half_even_of_int [simp]:
  "round_half_even (of_int k) = k"
  by (simp add: round_half_even_def)

lemma round_half_even_nonneg:
  "0 \<le> x \<Longrightarrow> 0 \<le> round_half_even x"
  by (auto simp add: round_half_even_def Let_def)

lemma ulp_pos: "0 < ulp q"
  by (simp add: ulp_def zero_less_power_int)

lemma round_double_nonneg:
  assumes "0 \<le> q"
  shows "0 \<le> round_double q"
proof -
  have "0 \<le> q / ulp q"
    using assms ulp_pos [of q] by simp
  then have "0 \<le> round_half_even (q / ulp q)"
    by (rule round_half_even_nonneg)
  then show ?thesis
    using ulp_pos [of q] by (simp add: round_double_def)
qed

lemma round_double_error_ulp:
  "\<bar>round_double q - q\<bar> \<le> ulp q / 2"
proof (cases "q = 0")
  case True
  then show ?thesis using ulp_pos [of q] by (simp add: round_double_def)
next
  case False
  define u where "u = ulp q"
  have u: "0 < u" by (simp add: u_def ulp_pos)
  have "round_double q - q = (of_int (round_half_even (q / u)) - q / u) * u"
    using False u by (simp add: round_double_def u_def algebra_simps)
  then have "\<bar>round_double q - q\<bar> = \<bar>of_int (round_half_even (q / u)) - q / u\<bar> * u"
    using u by (simp add: abs_mult)
  also have "\<dots> \<le> (1 / 2) * u"
    using round_half_even_error [of "q / u"] u by (intro mult_right_mono) simp_all
  finally show ?thesis by (simp add: u_def)
qed

lemma ulp_normal:
  assumes "2 powi (- 1022) \<le> \<bar>q\<bar>"
  shows "ulp q = 2 powi (floor_log2 \<bar>q\<bar> - 52)" and "ulp q \<le> \<bar>q\<bar> / 2 ^ 52"
proof -
  have "- 1022 \<le> floor_log2 \<bar>q\<bar>"
    using assms by (rule floor_log2_ge)
  then have "max (floor_log2 \<bar>q\<bar> - 52) (- 1074) = floor_log2 \<bar>q\<bar> - 52"
    by linarith
  then show u: "ulp q = 2 powi (floor_log2 \<bar>q\<bar> - 52)"
    by (simp only: ulp_def)
  have pos: "0 < \<bar>q\<bar>"
    using assms zero_less_power_int [of "2::real" "- 1022"] by linarith
  have "(2::real) powi (floor_log2 \<bar>q\<bar> - 52) = 2 powi (floor_log2 \<bar>q\<bar>) / 2 powi 52"
    by (rule power_int_diff) simp
  also have "\<dots> = 2 powi (floor_log2 \<bar>q\<bar>) / 2 ^ 52"
    using two_powi_nonneg [of 52] by simp
  also have "\<dots> \<le> \<bar>q\<bar> / 2 ^ 52"
    using floor_log2_bounds(1) [OF pos] by (intro divide_right_mono) simp_all
  finally show "ulp q \<le> \<bar>q\<bar> / 2 ^ 52"
    using u by simp
qed

lemma round_double_error:
  assumes "2 powi (- 1022) \<le> \<bar>q\<bar>"
  shows "\<bar>round_double q - q\<bar> \<le> \<bar>q\<bar> / 2 ^ 53"
proof -
  have "\<bar>round_double q - q\<bar> \<le> ulp q / 2"
    by (rule round_double_error_ulp)
  also have "\<dots> \<le> (\<bar>q\<bar> / 2 ^ 52) / 2"
    using ulp_normal(2) [OF assms] by simp
  finally show ?thesis by simp
qed

lemma round_double_of_int:
  assumes "\<bar>n\<bar> < 2 ^ 53"
  shows "round_double (of_int n) = of_int n"
proof (cases "n = 0")
  case True
  then show ?thesis by (simp add: round_double_def)
next
  case False
  define q :: real where "q = of_int n"
  define e where "e = floor_log2 \<bar>q\<bar>"
  have one: "1 \<le> \<bar>q\<bar>"
    using False by (simp add: q_def flip: of_int_abs)
  have "(2::real) powi 0 \<le> \<bar>q\<bar>" using one by simp
  then have e0: "0 \<le> e" unfolding e_def by (rule floor_log2_ge)
  have "\<bar>q\<bar> < 2 ^ 53"
  proof -
    have "of_int \<bar>n\<bar> < (of_int (2 ^ 53) :: real)"
      using assms by (simp only: of_int_less_iff)
    then show ?thesis by (simp add: q_def)
  qed
  then have "\<bar>q\<bar> < 2 powi 53" using two_powi_nonneg [of 53] by simp
  then have e53: "e < 53"
    unfolding e_def using one by (intro floor_log2_less) simp_all
  have "max (e - 52) (- 1074) = e - 52"
    using e0 by linarith
  then have u: "ulp q = 2 powi (e - 52)"
    by (simp only: ulp_def e_def)
  have pw: "(2::real) powi (e - 52) = 1 / 2 ^ nat (52 - e)"
    using e53 two_powi_nonpos [of "e - 52"] by simp
  then have "q / ulp q = of_int (n * 2 ^ nat (52 - e))"
    using u by (simp add: q_def)
  then have "round_half_even (q / ulp q) = n * 2 ^ nat (52 - e)"
    by (simp only: round_half_even_of_int)
  then have "round_double q = of_int (n * 2 ^ nat (52 - e)) * (1 / 2 ^ nat (52 - e))"
    using False u pw by (simp add: round_double_def q_def)
  then show ?thesis by (simp add: q_def)
qed

lemma int_to_float_exact:
  assumes "\<bar>n\<bar> < 2 ^ 53"
  shows "int_to_float n = Inr (of_int n)"
proof -
  have "of_int \<bar>n\<bar> < (of_int (2 ^ 53) :: real)"
    using assms by (simp only: of_int_less_iff)
  then have "\<bar>of_int n :: real\<bar> < 2 ^ 53"
    by simp
  moreover have "(2::real) ^ 53 \<le> 2 ^ 1024"
    by (intro power_increasing) simp_all
  ultimately have "\<not> out_of_range (of_int n)"
    unfolding out_of_range_def by linarith
  then show ?thesis
    by (simp add: int_to_float_def round_double_of_int [OF assms])
qed

lemma div_100_value:
  assumes "\<bar>n\<bar> < 2 ^ 53"
  shows "div_100 n = Inr (round_double (of_int n / 100))"
  by (simp add: div_100_def int_to_float_exact [OF assms])

lemma centi_normal:
  assumes "1 \<le> n"
  shows "2 powi (- 1022) \<le> \<bar>real_of_int n / 100\<bar>"
proof -
  have "(2::real) powi (- 1022) \<le> 2 powi (- 7)"
    by (intro power_int_increasing) simp_all
  also have "\<dots> = 1 / 128"
    using two_powi_nonpos [of "- 7"] by simp
  also have "\<dots> \<le> real_of_int n / 100"
    using assms by simp
  finally show ?thesis by simp
qed

lemma round_centi_error:
  assumes "0 \<le> a" and "a < 2 ^ 32"
  shows "\<bar>round_double (of_int a / 100) - of_int a / 100\<bar> \<le> 1 / 209715200"
proof (cases "a = 0")
  case True
  then show ?thesis by (simp add: round_double_def)
next
  case False
  define q :: real where "q = of_int a / 100"
  have "of_int a < (of_int (2 ^ 32) :: real)"
    using assms(2) by (simp only: of_int_less_iff)
  then have q: "0 \<le> q" "q \<le> 2 ^ 32 / 100"
    using assms(1) by (simp_all add: q_def)
  have "\<bar>round_double q - q\<bar> \<le> \<bar>q\<bar> / 2 ^ 53"
    unfolding q_def using assms False by (intro round_double_error centi_normal) simp
  also have "\<dots> \<le> (2 ^ 32 / 100) / 2 ^ 53"
    using q by (intro divide_right_mono) simp_all
  also have "\<dots> = 1 / 209715200"
    by simp
  finally show ?thesis
    by (simp only: q_def)
qed

lemma round_centi_strict_mono:
  assumes "0 \<le> a" and "a < b" and "b < 2 ^ 32"
  shows "round_double (of_int a / 100) < round_double (of_int b / 100)"
proof -
  have ab: "real_of_int a / 100 + 1 / 100 \<le> real_of_int b / 100"
    using assms(2) by simp
  have ea: "\<bar>round_double (of_int a / 100) - of_int a / 100\<bar> \<le> 1 / 209715200"
    using assms by (intro round_centi_error) simp_all
  have eb: "\<bar>round_double (of_int b / 100) - of_int b / 100\<bar> \<le> 1 / 209715200"
    using assms by (intro round_centi_error) simp_all
  show ?thesis
    using ab ea eb by linarith
qed

lemma round_centi_inj:
  assumes "0 \<le> a" "a < 2 ^ 32" "0 \<le> b" "b < 2 ^ 32"
    and "round_double (of_int a / 100) = round_double (of_int b / 100)"
  shows "a = b"
proof (rule ccontr)
  assume "a \<noteq> b"
  then consider "a < b" | "b < a" by linarith
  then show False
  proof cases
    case 1
    from round_centi_strict_mono [OF assms(1) 1 assms(4)] assms(5) show False by simp
  next
    case 2
    from round_centi_strict_mono [OF assms(3) 2 assms(2)] assms(5) show False by simp
  qed
qed

lemma floor_log2_eq:
  assumes "2 powi k \<le> q" and "q < 2 powi (k + 1)"
  shows "floor_log2 q = k"
proof -
  have "0 < q"
    using assms(1) zero_less_power_int [of "2::real" k] by linarith
  then have "floor_log2 q < k + 1"
    using assms(2) by (rule floor_log2_less)
  moreover have "k \<le> floor_log2 q"
    using assms(1) by (rule floor_log2_ge)
  ultimately show ?thesis by simp
qed

lemma round_double_655_36:
  "round_double (65536 / 100) = 5764607523034235 / 2 ^ 43"
proof -
  define q :: real where "q = 65536 / 100"
  have "floor_log2 \<bar>q\<bar> = 9"
    using two_powi_nonneg [of 9] two_powi_nonneg [of 10]
    by (intro floor_log2_eq) (simp_all add: q_def)
  then have "ulp q = 2 powi (- 43)"
    by (simp add: ulp_def)
  then have u: "ulp q = 1 / 2 ^ 43"
    using two_powi_nonpos [of "- 43"] by simp
  have r: "q / ulp q = 144115188075855872 / 25"
    unfolding u by (simp add: q_def)
  have "round_half_even (144115188075855872 / 25) = 5764607523034235"
    by (simp add: round_half_even_def)
  then have h: "round_half_even (q / ulp q) = 5764607523034235"
    by (simp only: r)
  have "q \<noteq> 0"
    by (simp add: q_def)
  then have "round_double q = of_int (round_half_even (q / ulp q)) * ulp q"
    by (simp only: round_double_def if_False)
  then have "round_double q = 5764607523034235 * ulp q"
    by (simp add: h)
  then have "round_double q = 5764607523034235 * (1 / 2 ^ 43)"
    unfolding u .
  then show ?thesis
    by (simp add: q_def)
qed

section \<open>32-bit composition: properties\<close>

lemma combine32BitValue_words:
  assumes "0 \<le> low" "low < 65536" "0 \<le> high" "high < 65536"
  shows "combine32BitValue low high = Inr (round_double (of_int (high * 65536 + low) / 100))"
    and "0 \<le> high * 65536 + low" and "high * 65536 + low < 2 ^ 32"
proof -
  show n0: "0 \<le> high * 65536 + low" and n1: "high * 65536 + low < 2 ^ 32"
    using assms by simp_all
  then have "\<bar>high * 65536 + low\<bar> < 2 ^ 53"
    by simp
  then show "combine32BitValue low high = Inr (round_double (of_int (high * 65536 + low) / 100))"
    unfolding combine32BitValue_def by (rule div_100_value)
qed

lemma split_words:
  fixes low high :: int
  assumes "0 \<le> low" "low < 65536"
  shows "(high * 65536 + low) div 65536 = high" and "(high * 65536 + low) mod 65536 = low"
  using assms by simp_all

text \<open>
  Claim C1. For 16-bit words \<open>low\<close> and \<open>high\<close> the composition is the double
  nearest to \<open>(high * 65536 + low) / 100\<close>: the integer is combined exactly, converts
  to a float without rounding, and is divided once by 100.0. The result is never
  negative, and two pairs of words with the same result are the same pair. The pair
  (0, 1) gives the double that the literal 655.36 denotes, and (100, 0) gives 1.0.
\<close>

theorem combine32BitValue_spec:
  assumes "0 \<le> low" "low < 65536" "0 \<le> high" "high < 65536"
    and "0 \<le> low'" "low' < 65536" "0 \<le> high'" "high' < 65536"
  shows "combine32BitValue low high = Inr (round_double (of_int (high * 65536 + low) / 100))
    \<and> (\<exists>v. combine32BitValue low high = Inr v \<and> 0 \<le> v)
    \<and> (combine32BitValue low high = combine32BitValue low' high' \<longrightarrow> low = low' \<and> high = high')
    \<and> combine32BitValue 0 1 = Inr (float_literal 655.36)
    \<and> float_literal 655.36 = 5764607523034235 / 2 ^ 43
    \<and> combine32BitValue 100 0 = Inr (float_literal 1.0)
    \<and> float_literal 1.0 = 1"
proof -
  note a = combine32BitValue_words [OF assms(1-4)]
  note b = combine32BitValue_words [OF assms(5-8)]
  have nonneg: "0 \<le> round_double (of_int (high * 65536 + low) / 100)"
    using a(2) by (intro round_double_nonneg) simp
  have inj: "low = low' \<and> high = high'"
    if "combine32BitValue low high = combine32BitValue low' high'"
  proof -
    from that have "round_double (of_int (high * 65536 + low) / 100)
        = round_double (of_int (high' * 65536 + low') / 100)"
      by (simp add: a(1) b(1))
    with a(2,3) b(2,3) have eq: "high * 65536 + low = high' * 65536 + low'"
      by (intro round_centi_inj)
    have "high = (high * 65536 + low) div 65536" "low = (high * 65536 + low) mod 65536"
      using split_words [OF assms(1,2), of high] by simp_all
    moreover have "high' = (high' * 65536 + low') div 65536"
      "low' = (high' * 65536 + low') mod 65536"
      using split_words [OF assms(5,6), of high'] by simp_all
    ultimately show ?thesis
      using eq by metis
  qed
  have one: "float_literal 1.0 = 1"
    using round_double_of_int [of 1] by (simp add: float_literal_def)
  have "combine32BitValue 0 1 = Inr (round_double (65536 / 100))"
    using combine32BitValue_words(1) [of 0 1] by simp
  moreover have "float_literal 655.36 = round_double (65536 / 100)"
    by (simp add: float_literal_def)
  moreover have "combine32BitValue 100 0 = Inr (round_double 1)"
    using combine32BitValue_words(1) [of 100 0] by simp
  moreover have "round_double 1 = 1"
    using round_double_of_int [of 1] by simp
  moreover have "round_double (65536 / 100) = 5764607523034235 / 2 ^ 43"
    by (rule round_double_655_36)
  ultimately show ?thesis
    using a(1) nonneg inj one by simp
qed

theorem combine32BitValue_spec_witness:
  "combine32BitValue 0 1 \<noteq> combine32BitValue 1 0
   \<and> combine32BitValue 65535 65535 \<noteq> combine32BitValue 65534 65535
   \<and> (\<exists>v. combine32BitValue 65535 65535 = Inr v \<and> 0 \<le> v)"
proof -
  have "combine32BitValue 0 1 \<noteq> combine32BitValue 1 0"
    using combine32BitValue_spec [of 0 1 1 0] by (auto simp add: float_literal_def)
  moreover have "combine32BitValue 65535 65535 \<noteq> combine32BitValue 65534 65535
      \<and> (\<exists>v. combine32BitValue 65535 65535 = Inr v \<and> 0 \<le> v)"
    using combine32BitValue_spec [of 65535 65535 65534 65535]
    by (auto simp add: float_literal_def)
  ultimately show ?thesis
    by blast
qed

section \<open>Load control\<close>

lemma writeCoil_outcome:
  assumes "write_bit instr reqs a v = None \<or> write_bit instr reqs a v = Some IOError"
  shows "writeCoil instr reqs a v = (Inr (write_bit instr reqs a v = None), reqs @ [WriteBit a v])"
  using assms by (auto simp add: writeCoil_def)

text \<open>
  Claim C8. When every coil write either succeeds or fails with \<^verbatim>\<open>IOError\<close>, the
  load control makes all three coil writes, in the order 0x0002, 0x0005, 0x0006 and
  whatever the outcome of the earlier ones, and returns true exactly when all three
  succeeded.
\<close>

theorem setLoadControl_attempts_all:
  assumes "\<forall>h a v. write_bit instr h a v = None \<or> write_bit instr h a v = Some IOError"
  shows "setLoadControl instr reqs manual_on test_mode force_on =
           (Inr (write_bit instr reqs 0x0002 manual_on = None
                 \<and> write_bit instr (reqs @ [WriteBit 0x0002 manual_on]) 0x0005 test_mode = None
                 \<and> write_bit instr (reqs @ [WriteBit 0x0002 manual_on, WriteBit 0x0005 test_mode])
                       0x0006 force_on = None),
            reqs @ [WriteBit 0x0002 manual_on, WriteBit 0x0005 test_mode, WriteBit 0x0006 force_on])"
proof -
  have w: "writeCoil instr h a v = (Inr (write_bit instr h a v = None), h @ [WriteBit a v])"
    for h a v
    using assms by (intro writeCoil_outcome) simp
  show ?thesis
    by (simp add: setLoadControl_def w)
qed

theorem setLoadControl_attempts_all_witness:
  "setLoadControl flaky_instrument [] True False True =
     (Inr False, [WriteBit 0x0002 True, WriteBit 0x0005 False, WriteBit 0x0006 True])
   \<and> setLoadControl dead_instrument [] True False True =
     (Inr False, [WriteBit 0x0002 True, WriteBit 0x0005 False, WriteBit 0x0006 True])"
proof -
  have "\<forall>h a v. write_bit flaky_instrument h a v = None
            \<or> write_bit flaky_instrument h a v = Some IOError"
    by (simp add: flaky_instrument_def)
  from setLoadControl_attempts_all [OF this, of "[]" True False True]
  have a: "setLoadControl flaky_instrument [] True False True =
     (Inr False, [WriteBit 0x0002 True, WriteBit 0x0005 False, WriteBit 0x0006 True])"
    by (simp add: flaky_instrument_def)
  have "\<forall>h a v. write_bit dead_instrument h a v = None
            \<or> write_bit dead_instrument h a v = Some IOError"
    by (simp add: dead_instrument_def)
  from setLoadControl_attempts_all [OF this, of "[]" True False True]
  have b: "setLoadControl dead_instrument [] True False True =
     (Inr False, [WriteBit 0x0002 True, WriteBit 0x0005 False, WriteBit 0x0006 True])"
    by (simp add: dead_instrument_def)
  from a b show ?thesis by simp
qed

section \<open>Single-register read\<close>

lemma scaled_register_nonneg: "0 \<le> scaled_register w decimals"
proof -
  have "0 \<le> uint w"
    by simp
  then have "0 \<le> real_of_int (uint w)"
    by (simp only: of_int_0_le_iff)
  then have "0 \<le> real_of_int (uint w) / 10 ^ decimals"
    by (intro divide_nonneg_nonneg) simp_all
  then show ?thesis
    unfolding scaled_register_def by (rule round_double_nonneg)
qed

text \<open>
  Claim C9, as amended. With at most 10 decimals, a successful single-register read
  returns the raw word divided by ten to the number of decimals, and a read that fails
  with \<^verbatim>\<open>IOError\<close> returns the number -1. Registers are read unsigned, so every
  valid reading is at least 0 and the value -1 is none of them. With more than 10
  decimals the library's \<^verbatim>\<open>ValueError\<close> is not caught and leaves the read.
\<close>

theorem readReg_sentinel:
  "(decimals \<le> 10 \<and> read_register instr reqs register decimals function_code = Inr w \<longrightarrow>
      readReg instr reqs register decimals function_code =
        (Inr (scaled_register w decimals),
         reqs @ [ReadRegister register decimals function_code]))
   \<and> (decimals \<le> 10
        \<and> read_register instr reqs register decimals function_code = Inl IOError \<longrightarrow>
      readReg instr reqs register decimals function_code =
        (Inr (- 1), reqs @ [ReadRegister register decimals function_code]))
   \<and> (10 < decimals \<longrightarrow>
      readReg instr reqs register decimals function_code =
        (Inl ValueError, reqs @ [ReadRegister register decimals function_code]))
   \<and> scaled_register w decimals = round_double (of_int (uint w) / 10 ^ decimals)
   \<and> 0 \<le> scaled_register w decimals
   \<and> scaled_register w decimals \<noteq> - 1"
  using scaled_register_nonneg [of w decimals]
  by (simp add: readReg_def read_register_scaled_def scaled_register_def)

theorem readReg_sentinel_witness:
  "readReg flaky_instrument [] 0x3100 2 4 =
     (Inr (scaled_register 2500 2), [ReadRegister 0x3100 2 4])
   \<and> readReg dead_instrument [] 0x3100 2 4 = (Inr (- 1), [ReadRegister 0x3100 2 4])
   \<and> readReg flaky_instrument [] 0x3100 11 4 = (Inl ValueError, [ReadRegister 0x3100 11 4])
   \<and> scaled_register 2500 2 \<noteq> - 1"
  using readReg_sentinel [of 2 flaky_instrument "[]" "0x3100" 4 2500]
    readReg_sentinel [of 2 dead_instrument "[]" "0x3100" 4 2500]
    readReg_sentinel [of 11 flaky_instrument "[]" "0x3100" 4 2500]
  by (simp add: flaky_instrument_def dead_instrument_def)

text \<open>
  Claim C9 as stated fails at two inputs. On a transport failure the single-register
  read returns normally, with the number -1: the result is a reading-typed value, not an
  error value. With 11 decimals and a working link it neither returns a reading nor
  reports a read error: the \<^verbatim>\<open>ValueError\<close> leaves it.
\<close>

theorem readReg_failure_is_a_number:
  "fst (readReg dead_instrument [] 0x3100 2 4) = Inr (- 1)
   \<and> \<not> isl (fst (readReg dead_instrument [] 0x3100 2 4))
   \<and> fst (readReg flaky_instrument [] 0x3100 11 4) = Inl ValueError"
  by (simp add: readReg_def read_register_scaled_def dead_instrument_def
      flaky_instrument_def)

section \<open>Snapshot reads\<close>

lemma dict_literal_keys:
  "dict_literal kvs = Inr d \<Longrightarrow> map fst d = map fst kvs"
proof (induction kvs arbitrary: d rule: dict_literal.induct)
  case 1
  then show ?case by simp
next
  case (2 k e rest)
  then show ?case by simp
next
  case (3 k v rest)
  then show ?case by (auto split: sum.splits)
qed

lemma snapshot_keys:
  assumes "snapshot answer decode = Some d"
  shows "\<exists>ws. answer = Inr ws \<and> map fst d = map fst (decode (map uint ws))"
  using assms
  by (auto simp add: snapshot_def dict_literal_keys split: sum.splits)

lemma snapshot_failed:
  "snapshot (Inl e) decode = None"
  by (simp add: snapshot_def)

lemma word_in_range:
  fixes w :: "16 word"
  shows "0 \<le> uint w" and "uint w < 65536"
proof -
  show "0 \<le> uint w" by simp
  have "uint w < 2 ^ LENGTH(16)" by (rule uint_lt2p)
  then show "uint w < 65536" by simp
qed

lemma centi_word:
  fixes ws :: "16 word list"
  assumes "0 \<le> i" and "i < int (length ws)"
  shows "centi (map uint ws) i = Inr (round_double (of_int (uint (ws ! nat i)) / 100))"
proof -
  have "py_index (map uint ws) i = Inr (map uint ws ! nat i)"
    using assms by (intro py_index_in_range) simp_all
  moreover have "map uint ws ! nat i = uint (ws ! nat i)"
    using assms by (intro nth_map) simp
  moreover have "\<bar>uint (ws ! nat i)\<bar> < 2 ^ 53"
    using word_in_range [of "ws ! nat i"] by simp
  ultimately show ?thesis
    by (simp add: centi_def div_100_value)
qed

lemma pair32_word:
  fixes ws :: "16 word list"
  assumes "0 \<le> i" and "i < int (length ws)" and "0 \<le> j" and "j < int (length ws)"
  shows "pair32 (map uint ws) i j =
           Inr (round_double (of_int (uint (ws ! nat j) * 65536 + uint (ws ! nat i)) / 100))"
proof -
  have "py_index (map uint ws) i = Inr (map uint ws ! nat i)"
    using assms by (intro py_index_in_range) simp_all
  moreover have "py_index (map uint ws) j = Inr (map uint ws ! nat j)"
    using assms by (intro py_index_in_range) simp_all
  moreover have "map uint ws ! nat i = uint (ws ! nat i)"
    using assms by (intro nth_map) simp
  moreover have "map uint ws ! nat j = uint (ws ! nat j)"
    using assms by (intro nth_map) simp
  moreover have "combine32BitValue (uint (ws ! nat i)) (uint (ws ! nat j)) =
      Inr (round_double (of_int (uint (ws ! nat j) * 65536 + uint (ws ! nat i)) / 100))"
    using word_in_range [of "ws ! nat i"] word_in_range [of "ws ! nat j"]
    by (intro combine32BitValue_words(1)) simp_all
  ultimately show ?thesis
    by (simp add: pair32_def)
qed

lemma rated_complete:
  assumes "length ws = 5"
  shows "has_keys RATED_KEYS (snapshot (Inr ws) rated_fields)"
  using assms
  by (simp add: snapshot_def rated_fields_def centi_word pair32_word has_keys_def RATED_KEYS_def)

lemma current_complete:
  assumes "length ws = 20"
  shows "has_keys CURRENT_KEYS (snapshot (Inr ws) current_fields)"
  using assms
  by (simp add: snapshot_def current_fields_def centi_word pair32_word has_keys_def
      CURRENT_KEYS_def)

lemma stats_complete:
  assumes "length ws = 20"
  shows "has_keys STATS_KEYS (snapshot (Inr ws) stats_fields)"
  using assms
  by (simp add: snapshot_def stats_fields_def centi_word pair32_word has_keys_def
      STATS_KEYS_def)

lemma rated_all_or_nothing:
  "snapshot answer rated_fields = None \<or> has_keys RATED_KEYS (snapshot answer rated_fields)"
proof (cases "snapshot answer rated_fields")
  case None
  then show ?thesis by simp
next
  case (Some d)
  from snapshot_keys [OF this] show ?thesis
    by (auto simp add: Some has_keys_def rated_fields_def RATED_KEYS_def)
qed

lemma current_all_or_nothing:
  "snapshot answer current_fields = None
   \<or> has_keys CURRENT_KEYS (snapshot answer current_fields)"
proof (cases "snapshot answer current_fields")
  case None
  then show ?thesis by simp
next
  case (Some d)
  from snapshot_keys [OF this] show ?thesis
    by (auto simp add: Some has_keys_def current_fields_def CURRENT_KEYS_def)
qed

lemma stats_all_or_nothing:
  "snapshot answer stats_fields = None \<or> has_keys STATS_KEYS (snapshot answer stats_fields)"
proof (cases "snapshot answer stats_fields")
  case None
  then show ?thesis by simp
next
  case (Some d)
  from snapshot_keys [OF this] show ?thesis
    by (auto simp add: Some has_keys_def stats_fields_def STATS_KEYS_def)
qed

text \<open>
  Claim C2. For each of the three snapshot reads: when the block read raises, the
  result is \<^verbatim>\<open>None\<close>; when it returns the words requested, the result is a dictionary
  with every key of the reading kind; and in every case the result is either
  \<^verbatim>\<open>None\<close> or a dictionary with every key, never one with keys missing.
\<close>

theorem snapshot_reads_all_or_nothing:
  "(isl (read_registers instr reqs 0x3100 20 4) \<longrightarrow> fst (readCurrent instr reqs) = None)
   \<and> (\<forall>ws. read_registers instr reqs 0x3100 20 4 = Inr ws \<and> length ws = 20 \<longrightarrow>
          has_keys CURRENT_KEYS (fst (readCurrent instr reqs)))
   \<and> (fst (readCurrent instr reqs) = None
        \<or> has_keys CURRENT_KEYS (fst (readCurrent instr reqs)))
   \<and> (isl (read_registers instr reqs 0x3000 5 4) \<longrightarrow> fst (readRatedData instr reqs) = None)
   \<and> (\<forall>ws. read_registers instr reqs 0x3000 5 4 = Inr ws \<and> length ws = 5 \<longrightarrow>
          has_keys RATED_KEYS (fst (readRatedData instr reqs)))
   \<and> (fst (readRatedData instr reqs) = None
        \<or> has_keys RATED_KEYS (fst (readRatedData instr reqs)))
   \<and> (isl (read_registers instr reqs 0x3300 20 4) \<longrightarrow> fst (readStats instr reqs) = None)
   \<and> (\<forall>ws. read_registers instr reqs 0x3300 20 4 = Inr ws \<and> length ws = 20 \<longrightarrow>
          has_keys STATS_KEYS (fst (readStats instr reqs)))
   \<and> (fst (readStats instr reqs) = None
        \<or> has_keys STATS_KEYS (fst (readStats instr reqs)))"
proof -
  have c1: "isl (read_registers instr reqs 0x3100 20 4) \<longrightarrow> fst (readCurrent instr reqs) = None"
    by (auto simp add: readCurrent_def isl_def snapshot_failed)
  have c2: "\<forall>ws. read_registers instr reqs 0x3100 20 4 = Inr ws \<and> length ws = 20 \<longrightarrow>
          has_keys CURRENT_KEYS (fst (readCurrent instr reqs))"
    by (auto simp add: readCurrent_def current_complete)
  have c3: "fst (readCurrent instr reqs) = None
        \<or> has_keys CURRENT_KEYS (fst (readCurrent instr reqs))"
    using current_all_or_nothing by (simp add: readCurrent_def)
  have r1: "isl (read_registers instr reqs 0x3000 5 4) \<longrightarrow> fst (readRatedData instr reqs) = None"
    by (auto simp add: readRatedData_def isl_def snapshot_failed)
  have r2: "\<forall>ws. read_registers instr reqs 0x3000 5 4 = Inr ws \<and> length ws = 5 \<longrightarrow>
          has_keys RATED_KEYS (fst (readRatedData instr reqs))"
    by (auto simp add: readRatedData_def rated_complete)
  have r3: "fst (readRatedData instr reqs) = None
        \<or> has_keys RATED_KEYS (fst (readRatedData instr reqs))"
    using rated_all_or_nothing by (simp add: readRatedData_def)
  have s1: "isl (read_registers instr reqs 0x3300 20 4) \<longrightarrow> fst (readStats instr reqs) = None"
    by (auto simp add: readStats_def isl_def snapshot_failed)
  have s2: "\<forall>ws. read_registers instr reqs 0x3300 20 4 = Inr ws \<and> length ws = 20 \<longrightarrow>
          has_keys STATS_KEYS (fst (readStats instr reqs))"
    by (auto simp add: readStats_def stats_complete)
  have s3: "fst (readStats instr reqs) = None
        \<or> has_keys STATS_KEYS (fst (readStats instr reqs))"
    using stats_all_or_nothing by (simp add: readStats_def)
  from c1 c2 c3 r1 r2 r3 s1 s2 s3 show ?thesis
    by blast
qed

theorem snapshot_reads_all_or_nothing_witness:
  "fst (readCurrent dead_instrument []) = None
   \<and> fst (readRatedData dead_instrument []) = None
   \<and> fst (readStats dead_instrument []) = None
   \<and> has_keys CURRENT_KEYS (fst (readCurrent flaky_instrument []))
   \<and> has_keys RATED_KEYS (fst (readRatedData flaky_instrument []))
   \<and> has_keys STATS_KEYS (fst (readStats flaky_instrument []))"
proof -
  note d = snapshot_reads_all_or_nothing [of dead_instrument "[]"]
  note f = snapshot_reads_all_or_nothing [of flaky_instrument "[]"]
  have "isl (read_registers dead_instrument [] 0x3100 20 4)"
    "isl (read_registers dead_instrument [] 0x3000 5 4)"
    "isl (read_registers dead_instrument [] 0x3300 20 4)"
    by (simp_all add: dead_instrument_def)
  with d have a: "fst (readCurrent dead_instrument []) = None"
    "fst (readRatedData dead_instrument []) = None"
    "fst (readStats dead_instrument []) = None"
    by blast+
  have "read_registers flaky_instrument [] 0x3100 20 4 = Inr (replicate 20 1234)
      \<and> length (replicate 20 (1234 :: 16 word)) = 20"
    "read_registers flaky_instrument [] 0x3000 5 4 = Inr (replicate 5 1234)
      \<and> length (replicate 5 (1234 :: 16 word)) = 5"
    "read_registers flaky_instrument [] 0x3300 20 4 = Inr (replicate 20 1234)
      \<and> length (replicate 20 (1234 :: 16 word)) = 20"
    by (simp_all add: flaky_instrument_def)
  with f have b: "has_keys CURRENT_KEYS (fst (readCurrent flaky_instrument []))"
    "has_keys RATED_KEYS (fst (readRatedData flaky_instrument []))"
    "has_keys STATS_KEYS (fst (readStats flaky_instrument []))"
    by blast+
  from a b show ?thesis by simp
qed

text \<open>
  Claim C6, as amended. Reading the settings bank or the coil and discrete-input bank
  makes no request and returns the empty dictionary. This is a normal return, it differs
  from the \<^verbatim>\<open>None\<close> of a failed snapshot read, and no snapshot read ever returns an
  empty dictionary.
\<close>

theorem unsupported_banks_empty_mapping:
  "readAllSettings instr reqs = (Some [], reqs)
   \<and> readSystemStatus instr reqs = (Some [], reqs)
   \<and> fst (readAllSettings instr reqs) \<noteq> None
   \<and> fst (readSystemStatus instr reqs) \<noteq> None
   \<and> fst (readCurrent instr reqs) \<noteq> Some []
   \<and> fst (readRatedData instr reqs) \<noteq> Some []
   \<and> fst (readStats instr reqs) \<noteq> Some []"
proof -
  have "fst (readCurrent instr reqs) \<noteq> Some []"
    using current_all_or_nothing [of "read_registers instr reqs 0x3100 20 4"]
    by (auto simp add: readCurrent_def has_keys_def CURRENT_KEYS_def)
  moreover have "fst (readRatedData instr reqs) \<noteq> Some []"
    using rated_all_or_nothing [of "read_registers instr reqs 0x3000 5 4"]
    by (auto simp add: readRatedData_def has_keys_def RATED_KEYS_def)
  moreover have "fst (readStats instr reqs) \<noteq> Some []"
    using stats_all_or_nothing [of "read_registers instr reqs 0x3300 20 4"]
    by (auto simp add: readStats_def has_keys_def STATS_KEYS_def)
  ultimately show ?thesis
    by (simp add: readAllSettings_def readSystemStatus_def)
qed

text \<open>
  The outcome of reading an unsupported bank is the empty dictionary itself, not a
  separate value.
\<close>

theorem unsupported_banks_return_empty_mapping:
  "fst (readAllSettings dead_instrument []) = Some []
   \<and> fst (readSystemStatus dead_instrument []) = Some []"
  by (simp add: readAllSettings_def readSystemStatus_def)

section \<open>Battery settings\<close>























end
